theory Spec2Isabelle
  imports Complex_Main
begin

section \<open>Data model\<close>

text \<open>
  JavaScript numbers are modelled as real numbers.  The model records which sums,
  products and quotients the program forms and in which order; it does not model the
  rounding of binary64 arithmetic, so nothing below is a statement about rounding
  error.  The model's division agrees with the program's only for a non-zero divisor
  (the program yields Infinity or NaN there, HOL yields 0).

  \<^verbatim>\<open>SignatureLocation\<close> is imported from \<^verbatim>\<open>../types\<close>; its fields are the ones the
  object literal in \<^verbatim>\<open>scanForSignatures\<close> builds, plus the optional \<^verbatim>\<open>value\<close> that
  \<^verbatim>\<open>confirmSignature\<close> sets and \<^verbatim>\<open>embedSignatures\<close> reads.
\<close>

record SignatureLocation =
  sig_id :: string
  pageIndex :: nat
  sig_x :: real
  sig_y :: real
  sig_width :: real
  sig_height :: real
  sig_value :: "string option"

text \<open>
  Exceptions as values.  \<open>DecodeFailure\<close> is the rejection of a library's document
  load, \<open>ExtractionFailure\<close> the rejection of \<^verbatim>\<open>getPage\<close> or \<^verbatim>\<open>getTextContent\<close>,
  \<open>TypeError\<close> the language's exception for a method call on \<^verbatim>\<open>undefined\<close>, and
  \<open>ImageFailure\<close> the rejection of \<^verbatim>\<open>embedPng\<close> on data that is no PNG.  \<open>NotFound\<close>
  and \<open>OutOfRange\<close> are the two further conditions the specification names; no
  statement of the sources raises them.
\<close>

datatype error =
  DecodeFailure | ExtractionFailure | NotFound | OutOfRange | TypeError | ImageFailure

text \<open>JavaScript truthiness of an optional string and \<^verbatim>\<open>a || d\<close> on an optional number.\<close>

fun truthy :: "string option \<Rightarrow> bool" where
  "truthy None = False"
| "truthy (Some s) = (s \<noteq> [])"

fun num_or :: "real option \<Rightarrow> real \<Rightarrow> real" where
  "num_or None d = d"
| "num_or (Some v) d = (if v = 0 then d else v)"

section \<open>The text layer and the scanner\<close>

text \<open>
  A text item of the rendering library: its string, its transform
  \<^verbatim>\<open>[scaleX, skewX, skewY, scaleY, x, y]\<close> and its width and height, which may be
  missing.  A page either yields its text content or fails to (\<^verbatim>\<open>getPage\<close> or
  \<^verbatim>\<open>getTextContent\<close> rejects, \<open>None\<close>); the viewport at scale 1 gives the page's width
  and height.  A document that does not load is \<open>None\<close>.
\<close>

type_synonym transform = "real \<times> real \<times> real \<times> real \<times> real \<times> real"

fun tx4 :: "transform \<Rightarrow> real" where
  "tx4 (a, b, c, d, e, f) = e"

fun tx5 :: "transform \<Rightarrow> real" where
  "tx5 (a, b, c, d, e, f) = f"

record textItem =
  str :: string
  transform :: transform
  item_width :: "real option"
  item_height :: "real option"

record pdfjsPage =
  textContent :: "textItem list option"
  viewport_width :: real
  viewport_height :: real

type_synonym pdfjsDocument = "pdfjsPage list"

definition marker :: string where
  "marker = ''$signature''"

text \<open>\<^verbatim>\<open>String.prototype.includes\<close>: the argument occurs as a contiguous substring.\<close>

fun startsWith :: "string \<Rightarrow> string \<Rightarrow> bool" where
  "startsWith s [] = True"
| "startsWith [] (c # cs) = False"
| "startsWith (a # s) (c # cs) = (a = c \<and> startsWith s cs)"

fun includes_str :: "string \<Rightarrow> string \<Rightarrow> bool" where
  "includes_str [] m = (m = [])"
| "includes_str (a # s) m = (startsWith (a # s) m \<or> includes_str s m)"

text \<open>The two coordinate computations, as the scanner and the embedder write them.\<close>

definition uiY :: "real \<Rightarrow> real \<Rightarrow> real \<Rightarrow> real" where
  "uiY viewportHeight pdfY h = viewportHeight - pdfY - h"

definition yPos :: "real \<Rightarrow> real \<Rightarrow> real \<Rightarrow> real" where
  "yPos height sy imageHeight = height - (sy * height) - imageHeight"

text \<open>
  The object pushed for a matching item on page \<open>i\<close> (1-based), with \<open>newId\<close> the
  string \<^verbatim>\<open>Math.random().toString(36).substr(2, 9)\<close> produced.
\<close>

definition locate :: "string \<Rightarrow> nat \<Rightarrow> real \<Rightarrow> real \<Rightarrow> textItem \<Rightarrow> SignatureLocation" where
  "locate newId i vw vh item =
     (let x = tx4 (transform item);
          y = tx5 (transform item);
          h = num_or (item_height item) 12;
          w = num_or (item_width item) 100;
          boxWidth = 150;
          boxHeight = 60;
          pdfY = y
      in \<lparr> sig_id = newId,
           pageIndex = i - 1,
           sig_x = x / vw,
           sig_y = uiY vh pdfY h / vh,
           sig_width = boxWidth / vw,
           sig_height = boxHeight / vh,
           sig_value = None \<rparr>)"

text \<open>
  The random generator is the sequence \<open>rnd\<close> of the id strings its successive calls
  produce during one scan.  Every push makes exactly one call, so the push onto a list of
  \<open>n\<close> locations consumes \<open>rnd n\<close>.
\<close>

fun scanItems ::
  "(nat \<Rightarrow> string) \<Rightarrow> nat \<Rightarrow> real \<Rightarrow> real \<Rightarrow> textItem list \<Rightarrow>
   SignatureLocation list \<Rightarrow> SignatureLocation list" where
  "scanItems rnd i vw vh [] locs = locs"
| "scanItems rnd i vw vh (item # items) locs =
     scanItems rnd i vw vh items
       (if includes_str (str item) marker
        then locs @ [locate (rnd (length locs)) i vw vh item]
        else locs)"

text \<open>
  The page loop.  \<open>signatureLocations\<close> is declared outside the \<^verbatim>\<open>try\<close>, so what was
  pushed before an exception survives it: the loop returns the exception, if any,
  together with the list.
\<close>

fun scanPages ::
  "(nat \<Rightarrow> string) \<Rightarrow> nat \<Rightarrow> pdfjsPage list \<Rightarrow> SignatureLocation list \<Rightarrow>
   error option \<times> SignatureLocation list" where
  "scanPages rnd i [] locs = (None, locs)"
| "scanPages rnd i (page # pages) locs =
     (case textContent page of
        None \<Rightarrow> (Some ExtractionFailure, locs)
      | Some items \<Rightarrow>
          scanPages rnd (i + 1) pages
            (scanItems rnd i (viewport_width page) (viewport_height page) items locs))"

definition scanBody ::
  "(nat \<Rightarrow> string) \<Rightarrow> pdfjsDocument option \<Rightarrow> SignatureLocation list \<Rightarrow>
   error option \<times> SignatureLocation list" where
  "scanBody rnd loaded locs =
     (case loaded of
        None \<Rightarrow> (Some DecodeFailure, locs)
      | Some pdf \<Rightarrow> scanPages rnd 1 pdf locs)"

text \<open>
  The single \<^verbatim>\<open>catch\<close> around the whole body logs the exception and falls through to
  \<^verbatim>\<open>return signatureLocations\<close>: the promise always resolves.
\<close>

definition scanForSignatures ::
  "(nat \<Rightarrow> string) \<Rightarrow> pdfjsDocument option \<Rightarrow> error + SignatureLocation list" where
  "scanForSignatures rnd loaded = Inr (snd (scanBody rnd loaded []))"

section \<open>The embedding engine\<close>

text \<open>
  The document of the mutation library: its pages, each with its size and the images
  drawn onto it so far, in drawing order.  A document that \<^verbatim>\<open>PDFDocument.load\<close> rejects
  is \<open>None\<close>.  \<^verbatim>\<open>embedPng\<close> is a parameter: it gives the intrinsic width and height of
  the decoded image, or \<open>None\<close> when it rejects the data.
\<close>

record drawnImage =
  image :: string
  draw_x :: real
  draw_y :: real
  draw_width :: real
  draw_height :: real

record pdfPage =
  page_width :: real
  page_height :: real
  drawn :: "drawnImage list"

type_synonym PDFDocument = "pdfPage list"

text \<open>
  Modelled from the spec: \<^verbatim>\<open>scaleToFit\<close> belongs to the mutation library and is not
  part of the sources; the specification describes it as scaling the image "to fit fully
  within" the given width and height "while preserving its aspect ratio".  Both sides are
  multiplied by the same factor, the smaller of the two ratios.
\<close>

definition scaleToFit :: "real \<times> real \<Rightarrow> real \<Rightarrow> real \<Rightarrow> real \<times> real" where
  "scaleToFit dims w h =
     (let imgWidthScale = w / fst dims;
          imgHeightScale = h / snd dims;
          scale = min imgWidthScale imgHeightScale
      in (fst dims * scale, snd dims * scale))"

text \<open>The arguments of the \<^verbatim>\<open>drawImage\<close> call for one placement on its page.\<close>

definition drawFor :: "pdfPage \<Rightarrow> SignatureLocation \<Rightarrow> real \<times> real \<Rightarrow> drawnImage" where
  "drawFor page sig dims =
     (let width = page_width page;
          height = page_height page;
          pngDims = scaleToFit dims (sig_width sig * width) (sig_height sig * height);
          xPos = sig_x sig * width;
          yp = yPos height (sig_y sig) (snd pngDims)
      in \<lparr> image = the (sig_value sig),
           draw_x = xPos,
           draw_y = yp,
           draw_width = fst pngDims,
           draw_height = snd pngDims \<rparr>)"

text \<open>
  The loop over the placements.  \<^verbatim>\<open>pages[sig.pageIndex]\<close> is \<^verbatim>\<open>undefined\<close> beyond the
  last page, and \<^verbatim>\<open>page.getSize()\<close> then throws a \<^verbatim>\<open>TypeError\<close>; this happens before
  \<^verbatim>\<open>embedPng\<close> is called.  An exception leaves the function at once: nothing is saved.
  The mark is read only after the truthiness test, where it is present.
\<close>

fun embedLoop ::
  "(string \<Rightarrow> (real \<times> real) option) \<Rightarrow> PDFDocument \<Rightarrow> SignatureLocation list \<Rightarrow>
   error + PDFDocument" where
  "embedLoop embedPng pages [] = Inr pages"
| "embedLoop embedPng pages (sig # sigs) =
     (if \<not> truthy (sig_value sig) then embedLoop embedPng pages sigs
      else if length pages \<le> pageIndex sig then Inl TypeError
      else
        (let page = pages ! pageIndex sig
         in case embedPng (the (sig_value sig)) of
              None \<Rightarrow> Inl ImageFailure
            | Some dims \<Rightarrow>
                embedLoop embedPng
                  (pages[pageIndex sig :=
                     page\<lparr>drawn := drawn page @ [drawFor page sig dims]\<rparr>])
                  sigs))"

text \<open>
  The result stands for the saved bytes: the pages with what was drawn on them.  The
  base64 encoding of the bytes is not modelled.
\<close>

definition embedSignatures ::
  "(string \<Rightarrow> (real \<times> real) option) \<Rightarrow> PDFDocument option \<Rightarrow> SignatureLocation list \<Rightarrow>
   error + PDFDocument" where
  "embedSignatures embedPng loaded signatures_in =
     (case loaded of
        None \<Rightarrow> Inl DecodeFailure
      | Some pdfDoc \<Rightarrow> embedLoop embedPng pdfDoc signatures_in)"

section \<open>The signing interface\<close>

text \<open>
  \<^verbatim>\<open>DocumentMetadata\<close> is imported from \<^verbatim>\<open>../types\<close>; the record has the fields the
  modelled functions read or write.
\<close>

record DocumentMetadata =
  doc_id :: string
  title :: string
  filename :: string
  status :: string
  originalPdfData :: string
  signedPdfData :: "string option"
  signatures :: "SignatureLocation list"

text \<open>
  The state \<^verbatim>\<open>confirmSignature\<close> reads and sets, and the signature pad behind
  \<^verbatim>\<open>sigPadRef.current\<close> (\<open>None\<close> when the ref is \<^verbatim>\<open>null\<close>).
\<close>

record SigningState =
  currentDoc :: DocumentMetadata
  activeSignId :: "string option"
  isSigningModalOpen :: bool

record SignaturePad =
  isEmpty :: bool
  trimmedDataUrl :: string

text \<open>
  The result is the new state and the text of the alert, if one was shown.  No path of
  the function throws, so the result is never \<open>Inl\<close>.
\<close>

definition confirmSignature ::
  "SignaturePad option \<Rightarrow> SigningState \<Rightarrow> error + (SigningState \<times> string option)" where
  "confirmSignature sigPad st =
     (case sigPad of
        None \<Rightarrow> Inr (st, None)
      | Some pad \<Rightarrow>
          if \<not> truthy (activeSignId st) then Inr (st, None)
          else if isEmpty pad then Inr (st, Some ''Please draw a signature first'')
          else
            (let dataUrl = trimmedDataUrl pad;
                 updatedSignatures =
                   map (\<lambda>s. if Some (sig_id s) = activeSignId st
                            then s\<lparr>sig_value := Some dataUrl\<rparr> else s)
                       (signatures (currentDoc st))
             in Inr (st\<lparr>currentDoc := (currentDoc st)\<lparr>signatures := updatedSignatures\<rparr>,
                        isSigningModalOpen := False,
                        activeSignId := None\<rparr>, None)))"

section \<open>The document store\<close>

text \<open>
  What \<^verbatim>\<open>localStorage\<close> holds under the storage key: nothing (or the empty string), a
  string that \<^verbatim>\<open>JSON.parse\<close> rejects, or the serialisation of a list of records.
  \<^verbatim>\<open>setItem\<close> throws when the quota is exceeded; \<open>fits\<close> says which lists the browser
  accepts.
\<close>

datatype stored = Absent | Unparsable | Parsed "DocumentMetadata list"

fun getDocuments :: "stored \<Rightarrow> DocumentMetadata list" where
  "getDocuments Absent = []"
| "getDocuments Unparsable = []"
| "getDocuments (Parsed ds) = ds"

text \<open>\<^verbatim>\<open>Array.prototype.findIndex\<close>: the first index whose element passes, or -1.\<close>

fun findIndex :: "('a \<Rightarrow> bool) \<Rightarrow> 'a list \<Rightarrow> int" where
  "findIndex P [] = -1"
| "findIndex P (d # ds) =
     (if P d then 0 else (let r = findIndex P ds in if r < 0 then -1 else r + 1))"

text \<open>The result is the new content of the store and the text of the alert, if any.\<close>

definition saveDocument ::
  "(DocumentMetadata list \<Rightarrow> bool) \<Rightarrow> DocumentMetadata \<Rightarrow> stored \<Rightarrow> stored \<times> string option" where
  "saveDocument fits doc store =
     (let docs = getDocuments store;
          existingIndex = findIndex (\<lambda>d. doc_id d = doc_id doc) docs;
          docs' = (if existingIndex \<ge> 0 then docs[nat existingIndex := doc] else doc # docs)
      in if fits docs' then (Parsed docs', None)
         else (store, Some ''Local storage full. Cannot save document.''))"

section \<open>Example inputs\<close>

text \<open>
  Concrete inputs for the examples below: a generator that produces the same string on
  every call, a text item that is exactly the marker at origin (100, 700) with no
  reported size, an item without the marker, and US-letter pages, one with the given
  items and one whose text extraction fails.
\<close>

definition sameIds :: "nat \<Rightarrow> string" where
  "sameIds n = ''k3x9q0z1a''"

definition markerItem :: textItem where
  "markerItem =
     \<lparr> str = ''$signature'', transform = (1, 0, 0, 1, 100, 700),
       item_width = None, item_height = None \<rparr>"

definition plainItem :: textItem where
  "plainItem =
     \<lparr> str = ''Signed by:'', transform = (1, 0, 0, 1, 72, 720),
       item_width = Some 60, item_height = Some 11 \<rparr>"

definition letterPage :: "textItem list \<Rightarrow> pdfjsPage" where
  "letterPage items =
     \<lparr> textContent = Some items, viewport_width = 612, viewport_height = 792 \<rparr>"

definition brokenPage :: pdfjsPage where
  "brokenPage = \<lparr> textContent = None, viewport_width = 612, viewport_height = 792 \<rparr>"

text \<open>
  A drawn signature as a PNG data URL, which the example decoder accepts as an image of
  400 by 100 pixels; a placement without a mark and the same placement with a mark on a
  given page; a blank US-letter page of the mutation library; a pad holding that
  signature; a document record with given placements, the signing state over it with a
  given active id, stored records with a given id and title, and a browser that accepts
  up to three records.
\<close>

definition penMark :: string where
  "penMark = ''data:image/png;base64,iVBORw0KGgo=''"

definition unsignedSpot :: SignatureLocation where
  "unsignedSpot =
     \<lparr> sig_id = ''k3x9q0z1a'', pageIndex = 0, sig_x = 100 / 612, sig_y = 80 / 792,
       sig_width = 150 / 612, sig_height = 60 / 792, sig_value = None \<rparr>"

definition signedSpot :: "nat \<Rightarrow> SignatureLocation" where
  "signedSpot n = unsignedSpot\<lparr>pageIndex := n, sig_value := Some penMark\<rparr>"

definition blankPage :: pdfPage where
  "blankPage = \<lparr> page_width = 612, page_height = 792, drawn = [] \<rparr>"

definition canvasPng :: "string \<Rightarrow> (real \<times> real) option" where
  "canvasPng data = (if data = penMark then Some (400, 100) else None)"

definition drawnPad :: SignaturePad where
  "drawnPad = \<lparr> isEmpty = False, trimmedDataUrl = penMark \<rparr>"

definition contract :: "SignatureLocation list \<Rightarrow> DocumentMetadata" where
  "contract sigs =
     \<lparr> doc_id = ''d1'', title = ''Contract'', filename = ''contract.pdf'',
       status = ''unsigned'', originalPdfData = ''data:application/pdf;base64,JVBERi0='',
       signedPdfData = None, signatures = sigs \<rparr>"

definition signing :: "SignatureLocation list \<Rightarrow> string \<Rightarrow> SigningState" where
  "signing sigs active =
     \<lparr> currentDoc = contract sigs, activeSignId = Some active, isSigningModalOpen = True \<rparr>"

definition storedDoc :: "string \<Rightarrow> string \<Rightarrow> DocumentMetadata" where
  "storedDoc i t = (contract [])\<lparr>doc_id := i, title := t\<rparr>"

definition roomy :: "DocumentMetadata list \<Rightarrow> bool" where
  "roomy docs = (length docs \<le> 3)"

section \<open>Properties of the scanner\<close>

lemma startsWith_iff: "startsWith s m \<longleftrightarrow> (\<exists>ss. s = m @ ss)"
  by (induction s m rule: startsWith.induct) auto

text \<open>\<open>includes_str\<close> is the substring test.\<close>

lemma includes_str_iff: "includes_str s m \<longleftrightarrow> (\<exists>ps ss. s = ps @ m @ ss)"
proof (induction s)
  case Nil
  then show ?case by auto
next
  case (Cons a s)
  show ?case
  proof
    assume "includes_str (a # s) m"
    then consider "startsWith (a # s) m" | "includes_str s m" by auto
    then show "\<exists>ps ss. a # s = ps @ m @ ss"
    proof cases
      case 1
      then obtain ss where "a # s = m @ ss" by (auto simp: startsWith_iff)
      then have "a # s = [] @ m @ ss" by simp
      then show ?thesis by blast
    next
      case 2
      then obtain ps ss where "s = ps @ m @ ss" using Cons.IH by blast
      then have "a # s = (a # ps) @ m @ ss" by simp
      then show ?thesis by blast
    qed
  next
    assume "\<exists>ps ss. a # s = ps @ m @ ss"
    then obtain ps ss where e: "a # s = ps @ m @ ss" by blast
    show "includes_str (a # s) m"
    proof (cases ps)
      case Nil
      with e have "startsWith (a # s) m" by (auto simp: startsWith_iff)
      then show ?thesis by simp
    next
      case (Cons b ps')
      with e have "s = ps' @ m @ ss" by simp
      then have "includes_str s m" using Cons.IH by blast
      then show ?thesis by simp
    qed
  qed
qed

lemma scanItems_ids:
  "map sig_id locs = map rnd [0..<length locs] \<Longrightarrow>
   map sig_id (scanItems rnd i vw vh items locs) =
   map rnd [0..<length (scanItems rnd i vw vh items locs)]"
  by (induction items arbitrary: locs) (auto simp: locate_def)

lemma scanPages_ids:
  "map sig_id locs = map rnd [0..<length locs] \<Longrightarrow>
   map sig_id (snd (scanPages rnd i pages locs)) =
   map rnd [0..<length (snd (scanPages rnd i pages locs))]"
  by (induction pages arbitrary: i locs) (auto simp: scanItems_ids split: option.splits)

lemma scanPages_append:
  "\<forall>p \<in> set pre. textContent p \<noteq> None \<Longrightarrow>
   scanPages rnd i (pre @ rest) locs =
   scanPages rnd (i + length pre) rest (snd (scanPages rnd i pre locs))"
  by (induction pre arbitrary: i locs) (auto split: option.splits)

lemma scanItems_no_marker:
  "\<forall>it \<in> set items. \<not> includes_str (str it) marker \<Longrightarrow>
   scanItems rnd i vw vh items locs = locs"
  by (induction items arbitrary: locs) auto

lemma scanPages_no_marker:
  "\<forall>p \<in> set pages. \<forall>items. textContent p = Some items \<longrightarrow>
      (\<forall>it \<in> set items. \<not> includes_str (str it) marker) \<Longrightarrow>
   snd (scanPages rnd i pages locs) = locs"
  by (induction pages arbitrary: i locs) (auto simp: scanItems_no_marker split: option.splits)

text \<open>
  C3.  A one-page document of 612 by 792 units whose text layer is a single item equal
  to the marker, at origin (100, 700) and without a reported height, scans to exactly
  one placement: page index 0, x = 100/612, y = (792 - 700 - 12)/792 with the fallback
  height 12, width 150/612 and height 60/792.  Whatever width and height the item
  reports, the placement's width and height are these same two values.
\<close>

theorem scan_single_marker:
  "scanForSignatures rnd
     (Some [\<lparr> textContent =
                Some [\<lparr> str = ''$signature'', transform = (a, b, c, d, 100, 700),
                        item_width = w, item_height = None \<rparr>],
              viewport_width = 612, viewport_height = 792 \<rparr>])
   = Inr [\<lparr> sig_id = rnd 0, pageIndex = 0, sig_x = 100 / 612,
             sig_y = (792 - 700 - 12) / 792,
             sig_width = 150 / 612, sig_height = 60 / 792, sig_value = None \<rparr>]
   \<and> (\<forall>w' h'. \<exists>p.
         scanForSignatures rnd
           (Some [\<lparr> textContent =
                      Some [\<lparr> str = ''$signature'', transform = (a, b, c, d, 100, 700),
                              item_width = w', item_height = h' \<rparr>],
                    viewport_width = 612, viewport_height = 792 \<rparr>]) = Inr [p]
         \<and> sig_width p = 150 / 612 \<and> sig_height p = 60 / 792)"
  by (simp add: scanForSignatures_def scanBody_def marker_def locate_def uiY_def)

text \<open>
  C2 (as amended).  When text extraction fails for a page, the scan returns exactly
  what scanning the pages before the first failing page returns: the failing page and
  every page after it contribute nothing.
\<close>

theorem scan_stops_at_failed_page:
  assumes "\<forall>p \<in> set pre. textContent p \<noteq> None" and "textContent page = None"
  shows "scanForSignatures rnd (Some (pre @ page # rest)) = scanForSignatures rnd (Some pre)"
proof -
  have "scanPages rnd 1 (pre @ page # rest) [] =
        scanPages rnd (1 + length pre) (page # rest) (snd (scanPages rnd 1 pre []))"
    using assms(1) by (rule scanPages_append)
  then have "snd (scanPages rnd 1 (pre @ page # rest) []) = snd (scanPages rnd 1 pre [])"
    using assms(2) by simp
  then show ?thesis by (simp add: scanForSignatures_def scanBody_def)
qed

text \<open>
  C2, an instance: a page with the marker, a page whose extraction fails, and another
  page with the marker.  Only the first page's placement is returned.
\<close>

theorem scan_stops_at_failed_page_witness:
  "textContent (letterPage [markerItem]) \<noteq> None \<and> textContent brokenPage = None \<and>
   scanForSignatures sameIds (Some ([letterPage [markerItem]] @ brokenPage # [letterPage [markerItem]]))
   = Inr [\<lparr> sig_id = ''k3x9q0z1a'', pageIndex = 0, sig_x = 100 / 612,
             sig_y = 80 / 792, sig_width = 150 / 612, sig_height = 60 / 792, sig_value = None \<rparr>]"
proof -
  have h1: "\<forall>p \<in> set [letterPage [markerItem]]. textContent p \<noteq> None"
    by (simp add: letterPage_def)
  have h2: "textContent brokenPage = None" by (simp add: brokenPage_def)
  have "scanForSignatures sameIds (Some [letterPage [markerItem]])
   = Inr [\<lparr> sig_id = ''k3x9q0z1a'', pageIndex = 0, sig_x = 100 / 612,
             sig_y = 80 / 792, sig_width = 150 / 612, sig_height = 60 / 792, sig_value = None \<rparr>]"
    by (simp add: scanForSignatures_def scanBody_def marker_def locate_def uiY_def letterPage_def markerItem_def sameIds_def)
  then show ?thesis
    using h1 h2 scan_stops_at_failed_page [OF h1 h2, of sameIds "[letterPage [markerItem]]"] by simp
qed

text \<open>
  C2 as stated fails: when the first of two pages fails, the marker on the second page
  is not reported, although that page alone yields a placement.
\<close>

theorem scan_page_failure_counterexample:
  "scanForSignatures sameIds (Some [brokenPage, letterPage [markerItem]]) = Inr [] \<and>
   scanForSignatures sameIds (Some [letterPage [markerItem]]) \<noteq> Inr []"
  by (simp add: scanForSignatures_def scanBody_def marker_def locate_def letterPage_def markerItem_def brokenPage_def)

text \<open>
  C8 (as amended).  A scan always returns, and the ids of its placements are, in order,
  the strings the generator produced on its successive calls, one call per placement.
  They are pairwise distinct exactly when the generator produced no string twice among
  those calls.
\<close>

theorem scan_ids_from_generator:
  "\<exists>locs. scanForSignatures rnd loaded = Inr locs \<and>
          map sig_id locs = map rnd [0..<length locs] \<and>
          distinct (map sig_id locs) = inj_on rnd {0..<length locs}"
proof -
  define locs where "locs = snd (scanBody rnd loaded [])"
  have ids: "map sig_id locs = map rnd [0..<length locs]"
  proof (cases loaded)
    case None
    then show ?thesis by (simp add: locs_def scanBody_def)
  next
    case (Some pdf)
    have "map sig_id (snd (scanPages rnd 1 pdf [])) =
          map rnd [0..<length (snd (scanPages rnd 1 pdf []))]"
      by (rule scanPages_ids) simp
    with Some show ?thesis by (simp add: locs_def scanBody_def)
  qed
  have "distinct (map sig_id locs) = inj_on rnd {0..<length locs}"
    by (simp add: ids distinct_map)
  with ids show ?thesis by (auto simp: scanForSignatures_def locs_def)
qed

text \<open>
  C8 as stated fails: with a generator that produces the same string twice, a page with
  two markers gets two placements with the same id.
\<close>

theorem scan_ids_counterexample:
  "\<not> distinct (map sig_id (projr (scanForSignatures sameIds (Some [letterPage [markerItem, markerItem]]))))"
  by (simp add: scanForSignatures_def scanBody_def marker_def locate_def letterPage_def markerItem_def sameIds_def)

text \<open>
  C9 (as amended).  For a document that does not load, the scan returns the empty
  placement sequence, which is also what it returns for a loaded document whose pages
  hold no marker.
\<close>

theorem scan_undecodable_returns_empty:
  "scanForSignatures rnd None = Inr [] \<and>
   ((\<forall>p \<in> set pdf. \<forall>items. textContent p = Some items \<longrightarrow>
        (\<forall>it \<in> set items. \<not> includes_str (str it) marker)) \<longrightarrow>
    scanForSignatures rnd (Some pdf) = scanForSignatures rnd None)"
  by (auto simp: scanForSignatures_def scanBody_def scanPages_no_marker)

text \<open>
  C9, an instance: a one-page document without a marker and a document that does not
  load scan to the same empty sequence.
\<close>

theorem scan_undecodable_returns_empty_witness:
  "textContent (letterPage [plainItem]) = Some [plainItem] \<and>
   \<not> includes_str (str plainItem) marker \<and>
   scanForSignatures sameIds (Some [letterPage [plainItem]]) = Inr [] \<and>
   scanForSignatures sameIds None = Inr []"
proof -
  have h: "\<forall>p \<in> set [letterPage [plainItem]]. \<forall>items. textContent p = Some items \<longrightarrow>
        (\<forall>it \<in> set items. \<not> includes_str (str it) marker)"
    by (simp add: letterPage_def plainItem_def marker_def)
  have "textContent (letterPage [plainItem]) = Some [plainItem]"
    by (simp add: letterPage_def)
  moreover have "\<not> includes_str (str plainItem) marker"
    by (simp add: plainItem_def marker_def)
  ultimately show ?thesis
    using h scan_undecodable_returns_empty [of sameIds "[letterPage [plainItem]]"] by simp
qed

text \<open>
  C9 as stated fails: for a document that does not load, the scan returns normally
  with the empty sequence, and not with a decode failure.
\<close>

theorem scan_undecodable_counterexample:
  "scanForSignatures sameIds None = Inr [] \<and> scanForSignatures sameIds None \<noteq> Inl DecodeFailure"
  by (simp add: scanForSignatures_def scanBody_def)

section \<open>Properties of the embedding engine and the store\<close>

lemma embedLoop_filter:
  "embedLoop embedPng pages (filter (\<lambda>s. truthy (sig_value s)) sigs) = embedLoop embedPng pages sigs"
  by (induction sigs arbitrary: pages) (auto simp: Let_def split: option.splits)

lemma embedLoop_unsigned:
  "\<forall>s \<in> set sigs. \<not> truthy (sig_value s) \<Longrightarrow> embedLoop embedPng pages sigs = Inr pages"
  by (induction sigs) auto

lemma embedLoop_out_of_range:
  "sig \<in> set sigs \<Longrightarrow> truthy (sig_value sig) \<Longrightarrow> length pages \<le> pageIndex sig \<Longrightarrow>
   embedLoop embedPng pages sigs = Inl TypeError \<or> embedLoop embedPng pages sigs = Inl ImageFailure"
proof (induction sigs arbitrary: pages)
  case Nil
  then show ?case by simp
next
  case (Cons s sigs)
  show ?case
  proof (cases "s = sig")
    case True
    with Cons.prems show ?thesis by simp
  next
    case False
    with Cons.prems have m: "sig \<in> set sigs" by simp
    show ?thesis
    proof (cases "truthy (sig_value s) \<and> pageIndex s < length pages")
      case False
      then show ?thesis using Cons.IH [OF m Cons.prems(2,3)] by auto
    next
      case True
      show ?thesis
      proof (cases "embedPng (the (sig_value s))")
        case None
        with True show ?thesis by simp
      next
        case (Some dims)
        let ?pages' = "pages[pageIndex s := (pages ! pageIndex s)\<lparr>drawn := drawn (pages ! pageIndex s) @ [drawFor (pages ! pageIndex s) s dims]\<rparr>]"
        have "length ?pages' \<le> pageIndex sig" using Cons.prems(3) by simp
        from Cons.IH [OF m Cons.prems(2) this] True Some show ?thesis by (simp add: Let_def)
      qed
    qed
  qed
qed

lemma embedLoop_no_ImageFailure:
  "\<forall>s \<in> set sigs. truthy (sig_value s) \<longrightarrow> embedPng (the (sig_value s)) \<noteq> None \<Longrightarrow>
   embedLoop embedPng pages sigs \<noteq> Inl ImageFailure"
  by (induction sigs arbitrary: pages) (auto simp: Let_def split: option.splits)

lemma scaleToFit_fits:
  assumes "0 < iw" "0 < ih"
  shows "fst (scaleToFit (iw, ih) w h) \<le> w" and "snd (scaleToFit (iw, ih) w h) \<le> h"
proof -
  have "iw * min (w / iw) (h / ih) \<le> iw * (w / iw)"
    using assms(1) by (intro mult_left_mono) auto
  then show "fst (scaleToFit (iw, ih) w h) \<le> w"
    using assms(1) by (simp add: scaleToFit_def Let_def)
  have "ih * min (w / iw) (h / ih) \<le> ih * (h / ih)"
    using assms(2) by (intro mult_left_mono) auto
  then show "snd (scaleToFit (iw, ih) w h) \<le> h"
    using assms(2) by (simp add: scaleToFit_def Let_def)
qed

lemma scaleToFit_aspect:
  "fst (scaleToFit (iw, ih) w h) * ih = snd (scaleToFit (iw, ih) w h) * iw"
  by (simp add: scaleToFit_def Let_def)

lemma scaleToFit_tight:
  assumes "0 < iw" "0 < ih"
  shows "fst (scaleToFit (iw, ih) w h) = w \<or> snd (scaleToFit (iw, ih) w h) = h"
  using assms by (auto simp: scaleToFit_def Let_def min_def)

lemma findIndex_ge: "- 1 \<le> findIndex P ds"
  by (induction ds) (auto simp: Let_def)

lemma findIndex_neg_iff: "findIndex P ds < 0 \<longleftrightarrow> (\<forall>d \<in> set ds. \<not> P d)"
  using findIndex_ge [of P] by (induction ds) (auto simp: Let_def)

lemma findIndex_first:
  "0 \<le> findIndex P ds \<Longrightarrow>
   nat (findIndex P ds) < length ds \<and> P (ds ! nat (findIndex P ds)) \<and>
   (\<forall>j < nat (findIndex P ds). \<not> P (ds ! j))"
proof (induction ds)
  case Nil
  then show ?case by simp
next
  case (Cons d ds)
  show ?case
  proof (cases "P d")
    case True
    then show ?thesis by simp
  next
    case False
    with Cons.prems have nn: "0 \<le> findIndex P ds" by (simp add: Let_def split: if_splits)
    with False have e: "findIndex P (d # ds) = findIndex P ds + 1" by (simp add: Let_def)
    from nn have n: "nat (findIndex P ds + 1) = Suc (nat (findIndex P ds))" by simp
    from Cons.IH [OF nn] False show ?thesis
      unfolding e n by (auto simp: nth_Cons split: nat.splits)
  qed
qed

text \<open>
  C5 (as amended).  When the document loads and some placement with a mark has a page
  index at or beyond the page count, the embedding run fails and returns no document:
  either with the \<open>TypeError\<close> of reading the size of a missing page, or with the image
  failure of an earlier placement.  When every marked placement's image decodes, the
  failure is that \<open>TypeError\<close>.
\<close>

theorem embed_out_of_range_fails:
  assumes "sig \<in> set sigs" and "truthy (sig_value sig)" and "length pdf \<le> pageIndex sig"
  shows "(embedSignatures embedPng (Some pdf) sigs = Inl TypeError \<or>
          embedSignatures embedPng (Some pdf) sigs = Inl ImageFailure) \<and>
         ((\<forall>s \<in> set sigs. truthy (sig_value s) \<longrightarrow> embedPng (the (sig_value s)) \<noteq> None) \<longrightarrow>
          embedSignatures embedPng (Some pdf) sigs = Inl TypeError)"
  using embedLoop_out_of_range [OF assms, of embedPng]
    embedLoop_no_ImageFailure [of sigs embedPng pdf]
  by (auto simp: embedSignatures_def)

text \<open>
  C5, an instance: a one-page document, a marked placement on page 0 and one on page 1.
\<close>

theorem embed_out_of_range_fails_witness:
  "signedSpot 1 \<in> set [signedSpot 0, signedSpot 1] \<and> truthy (sig_value (signedSpot 1)) \<and>
   length [blankPage] \<le> pageIndex (signedSpot 1) \<and>
   canvasPng (the (sig_value (signedSpot 0))) \<noteq> None \<and>
   canvasPng (the (sig_value (signedSpot 1))) \<noteq> None \<and>
   embedSignatures canvasPng (Some [blankPage]) [signedSpot 0, signedSpot 1] = Inl TypeError"
proof -
  have h1: "signedSpot 1 \<in> set [signedSpot 0, signedSpot 1]" by simp
  have h2: "truthy (sig_value (signedSpot 1))" by (simp add: signedSpot_def penMark_def)
  have h3: "length [blankPage] \<le> pageIndex (signedSpot 1)" by (simp add: signedSpot_def)
  have h4: "canvasPng (the (sig_value (signedSpot 0))) \<noteq> None"
    and h5: "canvasPng (the (sig_value (signedSpot 1))) \<noteq> None"
    by (simp_all add: signedSpot_def canvasPng_def)
  from h4 h5 have "\<forall>s \<in> set [signedSpot 0, signedSpot 1].
      truthy (sig_value s) \<longrightarrow> canvasPng (the (sig_value s)) \<noteq> None" by simp
  with embed_out_of_range_fails [OF h1 h2 h3, of canvasPng]
  have "embedSignatures canvasPng (Some [blankPage]) [signedSpot 0, signedSpot 1] = Inl TypeError"
    by blast
  with h1 h2 h3 h4 h5 show ?thesis by blast
qed

text \<open>
  C5 as stated fails: for a marked placement beyond the last page, the failure is a
  \<open>TypeError\<close>, not an \<open>OutOfRange\<close> condition.
\<close>

theorem embed_out_of_range_counterexample:
  "embedSignatures canvasPng (Some [blankPage]) [signedSpot 1] = Inl TypeError \<and>
   embedSignatures canvasPng (Some [blankPage]) [signedSpot 1] \<noteq> Inl OutOfRange"
  by (simp add: embedSignatures_def signedSpot_def blankPage_def penMark_def)

text \<open>
  C6.  Embedding a placement sequence gives the same result as embedding it with the
  placements without a mark removed.  When no placement has a mark, embedding a loaded
  document returns it unchanged: the same pages, nothing drawn.
\<close>

theorem embed_skips_unsigned:
  "embedSignatures embedPng loaded sigs =
     embedSignatures embedPng loaded (filter (\<lambda>s. truthy (sig_value s)) sigs) \<and>
   ((\<forall>s \<in> set sigs. \<not> truthy (sig_value s)) \<longrightarrow>
      embedSignatures embedPng (Some pdf) sigs = Inr pdf)"
  by (auto simp: embedSignatures_def embedLoop_filter embedLoop_unsigned split: option.splits)

text \<open>
  C6, an instance: two placements without a mark, one of them with a page index beyond
  the document, leave a one-page document as it was.
\<close>

theorem embed_skips_unsigned_witness:
  "\<not> truthy (sig_value unsignedSpot) \<and>
   \<not> truthy (sig_value (unsignedSpot\<lparr>pageIndex := 7\<rparr>)) \<and>
   embedSignatures canvasPng (Some [blankPage]) [unsignedSpot, unsignedSpot\<lparr>pageIndex := 7\<rparr>]
     = Inr [blankPage]"
proof -
  have h1: "\<not> truthy (sig_value unsignedSpot)"
    and h2: "\<not> truthy (sig_value (unsignedSpot\<lparr>pageIndex := 7\<rparr>))"
    by (simp_all add: unsignedSpot_def)
  then have "\<forall>s \<in> set [unsignedSpot, unsignedSpot\<lparr>pageIndex := 7\<rparr>]. \<not> truthy (sig_value s)"
    by simp
  with embed_skips_unsigned [of canvasPng "Some [blankPage]" "[unsignedSpot, unsignedSpot\<lparr>pageIndex := 7\<rparr>]" "[blankPage]"]
  have "embedSignatures canvasPng (Some [blankPage]) [unsignedSpot, unsignedSpot\<lparr>pageIndex := 7\<rparr>]
     = Inr [blankPage]" by blast
  with h1 h2 show ?thesis by blast
qed

text \<open>
  C7.  For a placement with a mark, on a page of the document, whose image decodes to a
  positive width and height: the image is drawn on that page, and the loop goes on with
  the remaining placements.  The drawn size is the scaled size for the box
  (normalised width times page width, normalised height times page height); it lies
  within the box, touches it in one direction, and has the image's aspect ratio.  The
  drawn x is the normalised x times the page width, and the drawn y is the page height
  minus the normalised y times the page height minus the drawn (scaled) height.
\<close>

theorem embed_scales_then_positions:
  assumes "truthy (sig_value sig)" and "pageIndex sig < length pdf"
    and "embedPng (the (sig_value sig)) = Some (iw, ih)" and "0 < iw" and "0 < ih"
    and "page = pdf ! pageIndex sig" and "d = drawFor page sig (iw, ih)"
  shows "embedSignatures embedPng (Some pdf) (sig # rest) =
           embedSignatures embedPng
             (Some (pdf[pageIndex sig := page\<lparr>drawn := drawn page @ [d]\<rparr>])) rest \<and>
         (draw_width d, draw_height d) =
           scaleToFit (iw, ih) (sig_width sig * page_width page) (sig_height sig * page_height page) \<and>
         draw_width d \<le> sig_width sig * page_width page \<and>
         draw_height d \<le> sig_height sig * page_height page \<and>
         (draw_width d = sig_width sig * page_width page \<or>
          draw_height d = sig_height sig * page_height page) \<and>
         draw_width d * ih = draw_height d * iw \<and>
         draw_x d = sig_x sig * page_width page \<and>
         draw_y d = page_height page - (sig_y sig * page_height page) - draw_height d"
proof -
  let ?s = "scaleToFit (iw, ih) (sig_width sig * page_width page) (sig_height sig * page_height page)"
  have w: "draw_width d = fst ?s" and h: "draw_height d = snd ?s"
    and x: "draw_x d = sig_x sig * page_width page"
    and y: "draw_y d = page_height page - (sig_y sig * page_height page) - draw_height d"
    by (simp_all add: assms(7) drawFor_def Let_def yPos_def)
  have step: "embedSignatures embedPng (Some pdf) (sig # rest) =
           embedSignatures embedPng
             (Some (pdf[pageIndex sig := page\<lparr>drawn := drawn page @ [d]\<rparr>])) rest"
    using assms(1,2,3,6,7) by (simp add: embedSignatures_def Let_def)
  have fit: "fst ?s \<le> sig_width sig * page_width page" "snd ?s \<le> sig_height sig * page_height page"
    using scaleToFit_fits [OF assms(4,5)] by blast+
  have tight: "fst ?s = sig_width sig * page_width page \<or> snd ?s = sig_height sig * page_height page"
    using scaleToFit_tight [OF assms(4,5)] by blast
  have asp: "fst ?s * ih = snd ?s * iw" by (rule scaleToFit_aspect)
  show ?thesis using step fit tight asp x y by (simp add: w h)
qed

text \<open>
  C7, an instance: an image of 400 by 100 in the box of 150 by 60 is drawn 150 by 37.5
  at y = 792 - 80 - 37.5; the box height 60 plays no part in the position.
\<close>

theorem embed_scales_then_positions_witness:
  "truthy (sig_value (signedSpot 0)) \<and> pageIndex (signedSpot 0) < length [blankPage] \<and>
   canvasPng (the (sig_value (signedSpot 0))) = Some (400, 100) \<and> (0::real) < 400 \<and> (0::real) < 100 \<and>
   blankPage = [blankPage] ! pageIndex (signedSpot 0) \<and>
   embedSignatures canvasPng (Some [blankPage]) [signedSpot 0] =
     Inr [blankPage\<lparr>drawn := [\<lparr> image = penMark, draw_x = 100, draw_y = 792 - 80 - 37.5,
                                  draw_width = 150, draw_height = 37.5 \<rparr>]\<rparr>]"
proof -
  have h1: "truthy (sig_value (signedSpot 0))" by (simp add: signedSpot_def penMark_def)
  have h2: "pageIndex (signedSpot 0) < length [blankPage]" by (simp add: signedSpot_def)
  have h3: "canvasPng (the (sig_value (signedSpot 0))) = Some (400, 100)"
    by (simp add: signedSpot_def canvasPng_def)
  have h4: "(0::real) < 400" and h5: "(0::real) < 100" by simp_all
  have h6: "blankPage = [blankPage] ! pageIndex (signedSpot 0)" by (simp add: signedSpot_def)
  have d: "drawFor blankPage (signedSpot 0) (400, 100) =
     \<lparr> image = penMark, draw_x = 100, draw_y = 792 - 80 - 37.5,
       draw_width = 150, draw_height = 37.5 \<rparr>"
    by (simp add: drawFor_def scaleToFit_def yPos_def blankPage_def signedSpot_def unsignedSpot_def)
  have "embedSignatures canvasPng (Some [blankPage]) (signedSpot 0 # []) =
        embedSignatures canvasPng
          (Some ([blankPage][pageIndex (signedSpot 0) :=
             blankPage\<lparr>drawn := drawn blankPage @ [drawFor blankPage (signedSpot 0) (400, 100)]\<rparr>])) []"
    using h1 h2 h3 h6
      embed_scales_then_positions [of "signedSpot 0" "[blankPage]" canvasPng 400 100 blankPage
        "drawFor blankPage (signedSpot 0) (400, 100)" "[]"]
    by simp
  then have "embedSignatures canvasPng (Some [blankPage]) [signedSpot 0] =
     Inr [blankPage\<lparr>drawn := [\<lparr> image = penMark, draw_x = 100, draw_y = 792 - 80 - 37.5,
                                  draw_width = 150, draw_height = 37.5 \<rparr>]\<rparr>]"
    unfolding d by (simp add: embedSignatures_def signedSpot_def blankPage_def)
  with h1 h2 h3 h6 show ?thesis by simp
qed

section \<open>Properties of the signing interface\<close>

text \<open>
  C4 (as amended).  With a drawing on the pad and a non-empty active id, confirming the
  signature returns normally, without an alert and without any failure condition.  The
  placement sequence keeps its length; every placement carrying the active id gets the
  drawing as its mark, its other fields unchanged, and every other placement is
  returned as it was.  When no placement carries the id, the sequence is unchanged.
\<close>

theorem confirmSignature_attaches:
  assumes "\<not> isEmpty pad" and "pid \<noteq> []" and "activeSignId st = Some pid"
  shows "\<exists>st'. confirmSignature (Some pad) st = Inr (st', None) \<and>
     length (signatures (currentDoc st')) = length (signatures (currentDoc st)) \<and>
     (\<forall>k < length (signatures (currentDoc st)).
        signatures (currentDoc st') ! k =
          (if sig_id (signatures (currentDoc st) ! k) = pid
           then (signatures (currentDoc st) ! k)\<lparr>sig_value := Some (trimmedDataUrl pad)\<rparr>
           else signatures (currentDoc st) ! k)) \<and>
     (pid \<notin> sig_id ` set (signatures (currentDoc st)) \<longrightarrow>
        signatures (currentDoc st') = signatures (currentDoc st))"
proof -
  let ?f = "\<lambda>s. if Some (sig_id s) = activeSignId st
                 then s\<lparr>sig_value := Some (trimmedDataUrl pad)\<rparr> else s"
  let ?st' = "st\<lparr>currentDoc := (currentDoc st)\<lparr>signatures := map ?f (signatures (currentDoc st))\<rparr>,
                 isSigningModalOpen := False, activeSignId := None\<rparr>"
  have r: "confirmSignature (Some pad) st = Inr (?st', None)"
    using assms by (simp add: confirmSignature_def Let_def)
  have s: "signatures (currentDoc ?st') = map ?f (signatures (currentDoc st))" by simp
  have a: "length (signatures (currentDoc ?st')) = length (signatures (currentDoc st))"
    unfolding s by simp
  have b: "\<forall>k < length (signatures (currentDoc st)).
        signatures (currentDoc ?st') ! k =
          (if sig_id (signatures (currentDoc st) ! k) = pid
           then (signatures (currentDoc st) ! k)\<lparr>sig_value := Some (trimmedDataUrl pad)\<rparr>
           else signatures (currentDoc st) ! k)"
    unfolding s using assms(3) by simp
  have c: "pid \<notin> sig_id ` set (signatures (currentDoc st)) \<longrightarrow>
        signatures (currentDoc ?st') = signatures (currentDoc st)"
  proof
    assume n: "pid \<notin> sig_id ` set (signatures (currentDoc st))"
    have "map ?f (signatures (currentDoc st)) = map (\<lambda>s. s) (signatures (currentDoc st))"
      using n assms(3) by (intro map_cong) auto
    then show "signatures (currentDoc ?st') = signatures (currentDoc st)"
      unfolding s by simp
  qed
  from r a b c show ?thesis by blast
qed

text \<open>
  C4, an instance: of two placements, the one with the active id receives the mark and
  the other is returned as it was.
\<close>

theorem confirmSignature_attaches_witness:
  "\<not> isEmpty drawnPad \<and> ''k3x9q0z1a'' \<noteq> [] \<and>
   activeSignId (signing [unsignedSpot, unsignedSpot\<lparr>sig_id := ''7hq2m5c0x''\<rparr>] ''k3x9q0z1a'') = Some ''k3x9q0z1a'' \<and>
   (\<exists>st'. confirmSignature (Some drawnPad)
             (signing [unsignedSpot, unsignedSpot\<lparr>sig_id := ''7hq2m5c0x''\<rparr>] ''k3x9q0z1a'') = Inr (st', None) \<and>
          signatures (currentDoc st') =
            [unsignedSpot\<lparr>sig_value := Some penMark\<rparr>, unsignedSpot\<lparr>sig_id := ''7hq2m5c0x''\<rparr>])"
proof -
  have h1: "\<not> isEmpty drawnPad" by (simp add: drawnPad_def)
  have h2: "''k3x9q0z1a'' \<noteq> []" by simp
  have h3: "activeSignId (signing [unsignedSpot, unsignedSpot\<lparr>sig_id := ''7hq2m5c0x''\<rparr>] ''k3x9q0z1a'') = Some ''k3x9q0z1a''"
    by (simp add: signing_def)
  obtain st' where r: "confirmSignature (Some drawnPad)
             (signing [unsignedSpot, unsignedSpot\<lparr>sig_id := ''7hq2m5c0x''\<rparr>] ''k3x9q0z1a'') = Inr (st', None)"
    and n: "\<forall>k < length (signatures (currentDoc (signing [unsignedSpot, unsignedSpot\<lparr>sig_id := ''7hq2m5c0x''\<rparr>] ''k3x9q0z1a''))).
        signatures (currentDoc st') ! k =
          (if sig_id (signatures (currentDoc (signing [unsignedSpot, unsignedSpot\<lparr>sig_id := ''7hq2m5c0x''\<rparr>] ''k3x9q0z1a'')) ! k) = ''k3x9q0z1a''
           then (signatures (currentDoc (signing [unsignedSpot, unsignedSpot\<lparr>sig_id := ''7hq2m5c0x''\<rparr>] ''k3x9q0z1a'')) ! k)\<lparr>sig_value := Some (trimmedDataUrl drawnPad)\<rparr>
           else signatures (currentDoc (signing [unsignedSpot, unsignedSpot\<lparr>sig_id := ''7hq2m5c0x''\<rparr>] ''k3x9q0z1a'')) ! k)"
    and l: "length (signatures (currentDoc st')) = length (signatures (currentDoc (signing [unsignedSpot, unsignedSpot\<lparr>sig_id := ''7hq2m5c0x''\<rparr>] ''k3x9q0z1a'')))"
    using confirmSignature_attaches [OF h1 h2 h3] by blast
  have l2: "length (signatures (currentDoc st')) = 2" using l by (simp add: signing_def contract_def)
  have "signatures (currentDoc st') ! 0 = unsignedSpot\<lparr>sig_value := Some penMark\<rparr>"
    using n by (simp add: signing_def contract_def unsignedSpot_def drawnPad_def)
  moreover have "signatures (currentDoc st') ! 1 = unsignedSpot\<lparr>sig_id := ''7hq2m5c0x''\<rparr>"
    using n by (simp add: signing_def contract_def unsignedSpot_def drawnPad_def)
  ultimately have "signatures (currentDoc st') =
            [unsignedSpot\<lparr>sig_value := Some penMark\<rparr>, unsignedSpot\<lparr>sig_id := ''7hq2m5c0x''\<rparr>]"
    using l2 by (auto simp: list_eq_iff_nth_eq less_Suc_eq numeral_2_eq_2)
  with r h1 h2 h3 show ?thesis by blast
qed

text \<open>
  C4 as stated fails: for an id that no placement carries, the function returns
  normally (it closes the dialog and clears the active id) and reports no \<open>NotFound\<close>.
\<close>

theorem confirmSignature_unknown_id_counterexample:
  "confirmSignature (Some drawnPad) (signing [unsignedSpot] ''7hq2m5c0x'') =
     Inr ((signing [unsignedSpot] ''7hq2m5c0x'')\<lparr>isSigningModalOpen := False, activeSignId := None\<rparr>, None) \<and>
   confirmSignature (Some drawnPad) (signing [unsignedSpot] ''7hq2m5c0x'') \<noteq> Inl NotFound"
  by (simp add: confirmSignature_def signing_def contract_def unsignedSpot_def drawnPad_def)

section \<open>Properties of the document store\<close>

text \<open>
  C10.  When a save completes without the storage-full alert: if a stored record has
  the saved record's id, the first such record is replaced at its position, the
  sequence keeps its length and every other position is unchanged; if no stored record
  has that id, the saved record is put in front of the stored sequence.
\<close>

theorem saveDocument_replaces_or_prepends:
  assumes "saveDocument fits doc store = (store', None)"
    and "ds = getDocuments store"
  shows "(doc_id doc \<in> doc_id ` set ds \<longrightarrow>
            (\<exists>k < length ds.
                doc_id (ds ! k) = doc_id doc \<and> (\<forall>j < k. doc_id (ds ! j) \<noteq> doc_id doc) \<and>
                getDocuments store' = ds[k := doc] \<and>
                length (getDocuments store') = length ds \<and>
                getDocuments store' ! k = doc \<and>
                (\<forall>j < length ds. j \<noteq> k \<longrightarrow> getDocuments store' ! j = ds ! j))) \<and>
         (doc_id doc \<notin> doc_id ` set ds \<longrightarrow>
            getDocuments store' = doc # ds \<and> hd (getDocuments store') = doc)"
proof -
  let ?P = "\<lambda>d. doc_id d = doc_id doc"
  let ?i = "findIndex ?P ds"
  let ?ds' = "if 0 \<le> ?i then ds[nat ?i := doc] else doc # ds"
  have st: "getDocuments store' = ?ds'"
    using assms by (auto simp: saveDocument_def Let_def split: if_splits)
  show ?thesis
  proof (cases "0 \<le> ?i")
    case True
    from findIndex_first [OF True]
    have k: "nat ?i < length ds" "?P (ds ! nat ?i)" "\<forall>j < nat ?i. \<not> ?P (ds ! j)" by blast+
    have "ds ! nat ?i \<in> set ds" using k(1) by simp
    then have ex: "doc_id doc \<in> doc_id ` set ds" using k(2) by (metis imageI)
    have "getDocuments store' = ds[nat ?i := doc]" using st True by simp
    with k have "doc_id (ds ! nat ?i) = doc_id doc \<and> (\<forall>j < nat ?i. doc_id (ds ! j) \<noteq> doc_id doc) \<and>
                getDocuments store' = ds[nat ?i := doc] \<and>
                length (getDocuments store') = length ds \<and>
                getDocuments store' ! nat ?i = doc \<and>
                (\<forall>j < length ds. j \<noteq> nat ?i \<longrightarrow> getDocuments store' ! j = ds ! j)"
      by simp
    with k(1) have "\<exists>k < length ds.
                doc_id (ds ! k) = doc_id doc \<and> (\<forall>j < k. doc_id (ds ! j) \<noteq> doc_id doc) \<and>
                getDocuments store' = ds[k := doc] \<and>
                length (getDocuments store') = length ds \<and>
                getDocuments store' ! k = doc \<and>
                (\<forall>j < length ds. j \<noteq> k \<longrightarrow> getDocuments store' ! j = ds ! j)"
      by blast
    with ex show ?thesis by simp
  next
    case False
    then have "?i < 0" by simp
    then have no: "\<forall>d \<in> set ds. \<not> ?P d" by (simp add: findIndex_neg_iff)
    then have nex: "doc_id doc \<notin> doc_id ` set ds" by auto
    have "getDocuments store' = doc # ds" using st False by simp
    with nex show ?thesis by simp
  qed
qed

text \<open>
  C10, an instance: saving a record with the id of the second of three stored records
  replaces that one in place; saving a record with a new id puts it first.
\<close>

theorem saveDocument_replaces_or_prepends_witness:
  "saveDocument roomy (storedDoc ''d2'' ''Lease, signed'')
     (Parsed [storedDoc ''d1'' ''Contract'', storedDoc ''d2'' ''Lease'', storedDoc ''d3'' ''Offer''])
   = (Parsed [storedDoc ''d1'' ''Contract'', storedDoc ''d2'' ''Lease, signed'', storedDoc ''d3'' ''Offer''], None) \<and>
   doc_id (storedDoc ''d2'' ''Lease, signed'') \<in>
     doc_id ` set [storedDoc ''d1'' ''Contract'', storedDoc ''d2'' ''Lease'', storedDoc ''d3'' ''Offer''] \<and>
   (\<exists>k < 3. getDocuments (Parsed [storedDoc ''d1'' ''Contract'', storedDoc ''d2'' ''Lease, signed'', storedDoc ''d3'' ''Offer''])
       = [storedDoc ''d1'' ''Contract'', storedDoc ''d2'' ''Lease'', storedDoc ''d3'' ''Offer''][k := storedDoc ''d2'' ''Lease, signed'']) \<and>
   saveDocument roomy (storedDoc ''d3'' ''Offer'')
     (Parsed [storedDoc ''d1'' ''Contract'', storedDoc ''d2'' ''Lease''])
   = (Parsed [storedDoc ''d3'' ''Offer'', storedDoc ''d1'' ''Contract'', storedDoc ''d2'' ''Lease''], None) \<and>
   doc_id (storedDoc ''d3'' ''Offer'') \<notin>
     doc_id ` set [storedDoc ''d1'' ''Contract'', storedDoc ''d2'' ''Lease''] \<and>
   hd (getDocuments (Parsed [storedDoc ''d3'' ''Offer'', storedDoc ''d1'' ''Contract'', storedDoc ''d2'' ''Lease'']))
     = storedDoc ''d3'' ''Offer''"
proof -
  let ?A = "storedDoc ''d1'' ''Contract''" and ?B = "storedDoc ''d2'' ''Lease''"
  let ?B' = "storedDoc ''d2'' ''Lease, signed''" and ?C = "storedDoc ''d3'' ''Offer''"
  have h1: "saveDocument roomy ?B' (Parsed [?A, ?B, ?C]) = (Parsed [?A, ?B', ?C], None)"
    by (simp add: saveDocument_def roomy_def storedDoc_def contract_def)
  have h2: "saveDocument roomy ?C (Parsed [?A, ?B]) = (Parsed [?C, ?A, ?B], None)"
    by (simp add: saveDocument_def roomy_def storedDoc_def contract_def)
  have g1: "[?A, ?B, ?C] = getDocuments (Parsed [?A, ?B, ?C])"
    and g2: "[?A, ?B] = getDocuments (Parsed [?A, ?B])" by simp_all
  have c1: "doc_id ?B' \<in> doc_id ` set [?A, ?B, ?C]"
    by (simp add: storedDoc_def)
  have c2: "doc_id ?C \<notin> doc_id ` set [?A, ?B]"
    by (simp add: storedDoc_def)
  from saveDocument_replaces_or_prepends [OF h1 g1, THEN conjunct1, THEN mp, OF c1]
  obtain k where "k < length [?A, ?B, ?C]"
    and "getDocuments (Parsed [?A, ?B', ?C]) = [?A, ?B, ?C][k := ?B']"
    by blast
  then have "\<exists>k < 3. getDocuments (Parsed [?A, ?B', ?C]) = [?A, ?B, ?C][k := ?B']"
    by (intro exI [of _ k]) simp
  moreover from saveDocument_replaces_or_prepends [OF h2 g2, THEN conjunct2, THEN mp, OF c2]
  have "hd (getDocuments (Parsed [?C, ?A, ?B])) = ?C" by blast
  ultimately show ?thesis using h1 h2 c1 c2 by blast
qed

end
